theory Spec2Isabelle
  imports Complex_Main "HOL-Library.Monad_Syntax" "HOL-Library.Log_Nat"
begin

section \<open>The ANSI styling toolkit of \<^verbatim>\<open>ansi.py\<close>\<close>

text \<open>
  A shallow embedding of the colour model, the style descriptor and the gradient
  engine of \<^verbatim>\<open>src/ansi.py\<close>.

  Conventions of the embedding:
  \<^item> Python's unbounded \<^verbatim>\<open>int\<close> is \<^typ>\<open>int\<close>.
  \<^item> A value of Python's \<^verbatim>\<open>float\<close> is a \<^typ>\<open>rat\<close>; \<^verbatim>\<open>int(x)\<close> truncates towards
    zero and \<^verbatim>\<open>round(x)\<close> rounds to the nearest integer, a tie going to the even one.
  \<^item> In \<^verbatim>\<open>gradient\<close> and \<^verbatim>\<open>RGB.__add__\<close> the float operations are the exact ones.
  \<^item> In \<^verbatim>\<open>adv_gradient\<close> the quotient and the product that \<^verbatim>\<open>round\<close> is applied to
    are rounded to binary64 as the machine rounds them: there the exact value can be a
    tie where the machine's value is not, as for \<^verbatim>\<open>(70 / 100) * 45\<close>, which is
    \<^verbatim>\<open>31.499999999999996\<close> and not \<^verbatim>\<open>31.5\<close>.
  \<^item> An exception is a value of type \<^typ>\<open>'e + 'a\<close>: \<^term>\<open>Inl e\<close> is the exception
    \<open>e\<close> raised, \<^term>\<open>Inr v\<close> is the value \<open>v\<close> returned.
\<close>

subsection \<open>Exceptions\<close>

datatype error = TypeError | KeyError | IndexError | ZeroDivisionError | ValueError

subsection \<open>Numbers\<close>

text \<open>\<^verbatim>\<open>a / b\<close> on two ints: true division, raising on a zero divisor.\<close>

definition truediv :: "int \<Rightarrow> int \<Rightarrow> error + rat" where
  "truediv a b = (if b = 0 then Inl ZeroDivisionError else Inr (of_int a / of_int b))"

text \<open>\<^verbatim>\<open>int(x)\<close> on a float: truncation towards zero.\<close>

definition py_int :: "rat \<Rightarrow> int" where
  "py_int x = (if x < 0 then \<lceil>x\<rceil> else \<lfloor>x\<rfloor>)"

text \<open>\<^verbatim>\<open>round(x)\<close> on a float: the nearest integer, a tie going to the even neighbour.\<close>

definition py_round :: "rat \<Rightarrow> int" where
  "py_round x =
     (let f = \<lfloor>x\<rfloor>; d = x - of_int f
      in if d < 1 / 2 then f
         else if 1 / 2 < d then f + 1
         else if even f then f else f + 1)"

text \<open>
  Rounding to binary64: to the nearest number with a significand of 53 bits, a tie
  going to the even significand. The binary exponent of \<open>x \<noteq> 0\<close> is the \<open>e\<close> with
  \<^verbatim>\<open>2^e <= |x| < 2^(e+1)\<close>, and the numbers of binary64 around \<open>x\<close> are the multiples
  of \<^verbatim>\<open>2^(e-52)\<close>. An integer is taken as it is, which is what the machine does up to
  \<^verbatim>\<open>2^53\<close>; the range of the exponent is not bounded.
\<close>

definition binary_exponent :: "rat \<Rightarrow> int" where
  "binary_exponent x =
     (if 1 \<le> \<bar>x\<bar> then bitlen \<lfloor>\<bar>x\<bar>\<rfloor> - 1 else - bitlen (\<lceil>1 / \<bar>x\<bar>\<rceil> - 1))"

definition round_binary64 :: "rat \<Rightarrow> rat" where
  "round_binary64 x =
     (if rat_of_int \<lfloor>x\<rfloor> = x then x
      else (let u = power_int 2 (binary_exponent x - 52)
            in rat_of_int (py_round (x / u)) * u))"

text \<open>\<^verbatim>\<open>range(n)\<close>: the indices \<open>0, \<dots>, n - 1\<close>, none when \<open>n \<le> 0\<close>.\<close>

definition py_range :: "int \<Rightarrow> int list" where
  "py_range n = map int [0..<nat n]"

text \<open>\<^verbatim>\<open>enumerate(xs, start)\<close>: each element paired with its running index.\<close>

definition py_enumerate :: "'a list \<Rightarrow> int \<Rightarrow> (int \<times> 'a) list" where
  "py_enumerate xs start = zip (map (\<lambda>k. start + int k) [0..<length xs]) xs"

text \<open>
  \<^verbatim>\<open>xs[i]\<close> on a list: a negative index counts from the end, an index out of range
  raises \<^verbatim>\<open>IndexError\<close>.
\<close>

definition index :: "'a list \<Rightarrow> int \<Rightarrow> error + 'a" where
  "index xs i =
     (let j = (if i < 0 then int (length xs) + i else i)
      in if 0 \<le> j \<and> j < int (length xs) then Inr (xs ! nat j) else Inl IndexError)"

text \<open>
  \<^verbatim>\<open>for _ in range(k): result.append(c)\<close>: the list \<^verbatim>\<open>result\<close> after the loop.
\<close>

definition append_run :: "'a list \<Rightarrow> 'a \<Rightarrow> int \<Rightarrow> 'a list" where
  "append_run result c k = foldl (\<lambda>r _. r @ [c]) result (py_range k)"

text \<open>Decimal rendering of an int, as an f-string renders it.\<close>

function str_nat :: "nat \<Rightarrow> string" where
  "str_nat n =
     (if n < 10 then [char_of (48 + n)]
      else str_nat (n div 10) @ [char_of (48 + n mod 10)])"
  by pat_completeness auto
termination
  by (relation "measure id") auto

definition str_int :: "int \<Rightarrow> string" where
  "str_int i = (if i < 0 then CHR ''-'' # str_nat (nat (- i)) else str_nat (nat i))"

subsection \<open>The class \<^verbatim>\<open>RGB\<close>\<close>

text \<open>
  The dataclass has the three fields \<^verbatim>\<open>red\<close>, \<^verbatim>\<open>green\<close>, \<^verbatim>\<open>blue\<close>, annotated
  \<^verbatim>\<open>int\<close>. The record is polymorphic in the channel type because \<^verbatim>\<open>__add__\<close>
  stores the result of a true division, a float, in a new \<^verbatim>\<open>RGB\<close>.
\<close>

record 'c RGB =
  red :: 'c
  green :: 'c
  blue :: 'c

text \<open>
  Values that travel through dictionaries and operands without a class of their own.
  A \<^verbatim>\<open>dict\<close> is the list of its items in insertion order.
\<close>

datatype pyval =
    VNone
  | VBool bool
  | VInt int
  | VStr string
  | VDict "(string \<times> pyval) list"

text \<open>\<^verbatim>\<open>data[key]\<close>: only a dict can be subscripted by a string key.\<close>

definition subscript :: "pyval \<Rightarrow> string \<Rightarrow> error + pyval" where
  "subscript data key =
     (case data of
        VDict items \<Rightarrow> (case map_of items key of None \<Rightarrow> Inl KeyError | Some v \<Rightarrow> Inr v)
      | _ \<Rightarrow> Inl TypeError)"

text \<open>\<^verbatim>\<open>data.get(key, default)\<close> on a dict.\<close>

definition dict_get :: "(string \<times> pyval) list \<Rightarrow> string \<Rightarrow> pyval \<Rightarrow> pyval" where
  "dict_get items key dflt = (case map_of items key of None \<Rightarrow> dflt | Some v \<Rightarrow> v)"

text \<open>\<^verbatim>\<open>RGB.to_dict\<close>: the instance's \<^verbatim>\<open>__dict__\<close>.\<close>

definition RGB_to_dict :: "int RGB \<Rightarrow> (string \<times> pyval) list" where
  "RGB_to_dict self =
     [(''red'', VInt (red self)), (''green'', VInt (green self)), (''blue'', VInt (blue self))]"

text \<open>
  \<^verbatim>\<open>RGB.from_dict\<close>: \<^verbatim>\<open>self(data['red'], data['green'], data['blue'])\<close>. The three
  subscripts are evaluated in this order and each may raise. The constructor checks
  nothing; where a value is not an int the object built is not an \<^typ>\<open>int RGB\<close>, and the
  model returns \<^term>\<open>None\<close> for it.
\<close>

definition RGB_from_dict :: "pyval \<Rightarrow> error + int RGB option" where
  "RGB_from_dict data =
     (case subscript data ''red'' of
        Inl e \<Rightarrow> Inl e
      | Inr r \<Rightarrow>
     (case subscript data ''green'' of
        Inl e \<Rightarrow> Inl e
      | Inr g \<Rightarrow>
     (case subscript data ''blue'' of
        Inl e \<Rightarrow> Inl e
      | Inr b \<Rightarrow>
          Inr (case r of
                 VInt r' \<Rightarrow>
                   (case g of
                      VInt g' \<Rightarrow>
                        (case b of
                           VInt b' \<Rightarrow> Some \<lparr>red = r', green = g', blue = b'\<rparr>
                         | _ \<Rightarrow> None)
                    | _ \<Rightarrow> None)
               | _ \<Rightarrow> None))))"

subsection \<open>The class \<^verbatim>\<open>Ansi\<close>\<close>

text \<open>
  A colour of a style is a string (a colour name) or an \<^verbatim>\<open>RGB\<close>. The fields
  \<^verbatim>\<open>back\<close>, \<^verbatim>\<open>dim\<close> and \<^verbatim>\<open>inverse\<close> carry a suffix here, their names being taken.
\<close>

datatype color = Named string | Rgb "int RGB"

record Ansi =
  fore :: color
  back_color :: color
  bold :: bool
  dim_flag :: bool
  italic :: bool
  underline :: bool
  strikethrough :: bool
  inverse_flag :: bool
  reset :: bool

text \<open>The defaults of the parameters of \<^verbatim>\<open>Ansi.__init__\<close>.\<close>

definition Ansi_defaults :: Ansi where
  "Ansi_defaults =
     \<lparr>fore = Named ''default'', back_color = Named ''default'', bold = False,
      dim_flag = False, italic = False, underline = False, strikethrough = False,
      inverse_flag = False, reset = True\<rparr>"

text \<open>What the right operand of \<^verbatim>\<open>+\<close> can be.\<close>

datatype pyobj = RGBObj "int RGB" | AnsiObj Ansi | Val pyval

text \<open>
  \<^verbatim>\<open>RGB.__add__\<close>: the channel means, by true division, for an \<^verbatim>\<open>RGB\<close> operand;
  \<^verbatim>\<open>TypeError\<close> for any other.
\<close>

fun RGB_add :: "int RGB \<Rightarrow> pyobj \<Rightarrow> error + rat RGB" where
  "RGB_add self (RGBObj other) =
     Inr \<lparr>red = rat_of_int (red self + red other) / 2,
          green = rat_of_int (green self + green other) / 2,
          blue = rat_of_int (blue self + blue other) / 2\<rparr>"
| "RGB_add self _ = Inl TypeError"

text \<open>The table \<^verbatim>\<open>_ansi_codes\<close>.\<close>

definition ansi_codes :: "(string \<times> int) list" where
  "ansi_codes =
     [(''default'', 39),
      (''black'', 30), (''bright_black'', 90),
      (''red'', 31), (''bright_red'', 91),
      (''green'', 32), (''bright_green'', 92),
      (''yellow'', 33), (''bright_yellow'', 93),
      (''blue'', 34), (''bright_blue'', 94),
      (''magenta'', 35), (''bright_magenta'', 95),
      (''cyan'', 36), (''bright_cyan'', 96),
      (''white'', 37), (''bright_white'', 97)]"

text \<open>The two characters \<^verbatim>\<open>\033[\<close> that open every sequence.\<close>

definition csi :: string where
  "csi = [CHR 0x1B, CHR ''['']"

text \<open>
  The colour part of the property \<^verbatim>\<open>Ansi.string\<close>: \<open>offset\<close> is 0 and \<open>selector\<close> is
  \<^verbatim>\<open>38\<close> for the foreground, 10 and \<^verbatim>\<open>48\<close> for the background. A name missing
  from the table raises \<^verbatim>\<open>KeyError\<close>.
\<close>

definition color_string :: "color \<Rightarrow> int \<Rightarrow> string \<Rightarrow> error + string" where
  "color_string c offset selector =
     (case c of
        Named name \<Rightarrow>
          (case map_of ansi_codes name of
             None \<Rightarrow> Inl KeyError
           | Some code \<Rightarrow> Inr (csi @ str_int (code + offset) @ ''m''))
      | Rgb rgb \<Rightarrow>
          Inr (csi @ selector @ '';2;'' @ str_int (red rgb) @ '';'' @ str_int (green rgb) @
               '';'' @ str_int (blue rgb) @ ''m''))"

text \<open>The property \<^verbatim>\<open>Ansi.string\<close>.\<close>

definition Ansi_string :: "Ansi \<Rightarrow> error + string" where
  "Ansi_string self =
     (case color_string (fore self) 0 ''38'' of
        Inl e \<Rightarrow> Inl e
      | Inr fg \<Rightarrow>
     (case color_string (back_color self) 10 ''48'' of
        Inl e \<Rightarrow> Inl e
      | Inr bg \<Rightarrow>
     (let b = (if bold self then '';1'' else []);
          d = (if dim_flag self then '';2'' else []);
          i = (if italic self then '';3'' else []);
          u = (if underline self then '';4'' else []);
          s = (if strikethrough self then '';9'' else []);
          inv = (if inverse_flag self then '';7'' else []);
          styles = (if list_ex (\<lambda>x. x \<noteq> []) [b, d, i, u, s, inv]
                    then csi @ ''0'' @ b @ i @ u @ s @ d @ inv @ ''m''
                    else csi @ ''0m'')
      in Inr (styles @ fg @ bg))))"

text \<open>
  \<^verbatim>\<open>Ansi.__add__\<close>. With a string it returns the styled text; with an \<^verbatim>\<open>Ansi\<close> it
  calls the constructor with eight keyword arguments, \<^verbatim>\<open>reset\<close> not among them;
  with anything else it raises \<^verbatim>\<open>TypeError\<close>.
\<close>

datatype add_result = Text string | Style Ansi

fun Ansi_add :: "Ansi \<Rightarrow> pyobj \<Rightarrow> error + add_result" where
  "Ansi_add self (Val (VStr other)) =
     (case Ansi_string self of
        Inl e \<Rightarrow> Inl e
      | Inr str \<Rightarrow>
          Inr (Text (csi @ ''39;49;0m'' @ str @ other @
                     (if reset self then csi @ ''39;49;0m'' else []))))"
| "Ansi_add self (AnsiObj other) =
     Inr (Style (Ansi_defaults
       \<lparr>fore := (if fore self = Named ''default'' then fore other else fore self),
        back_color :=
          (if back_color self = Named ''default'' then back_color other else back_color self),
        bold := bold self \<or> bold other,
        dim_flag := dim_flag self \<or> dim_flag other,
        italic := italic self \<or> italic other,
        underline := underline self \<or> underline other,
        strikethrough := strikethrough self \<or> strikethrough other,
        inverse_flag := inverse_flag self \<or> inverse_flag other\<rparr>))"
| "Ansi_add self _ = Inl TypeError"

text \<open>
  \<^verbatim>\<open>Ansi.to_dict\<close>: the \<^verbatim>\<open>__dict__\<close> of a deep copy whose \<^verbatim>\<open>RGB\<close> colours have been
  replaced by their dictionaries.
\<close>

definition color_to_val :: "color \<Rightarrow> pyval" where
  "color_to_val c = (case c of Named name \<Rightarrow> VStr name | Rgb rgb \<Rightarrow> VDict (RGB_to_dict rgb))"

definition Ansi_to_dict :: "Ansi \<Rightarrow> (string \<times> pyval) list" where
  "Ansi_to_dict self =
     [(''fore'', color_to_val (fore self)),
      (''back'', color_to_val (back_color self)),
      (''bold'', VBool (bold self)),
      (''dim'', VBool (dim_flag self)),
      (''italic'', VBool (italic self)),
      (''underline'', VBool (underline self)),
      (''strikethrough'', VBool (strikethrough self)),
      (''inverse'', VBool (inverse_flag self)),
      (''reset'', VBool (reset self))]"

text \<open>
  \<^verbatim>\<open>Ansi.from_dict\<close>. A colour entry that is not a string goes through
  \<^verbatim>\<open>RGB.from_dict\<close>, which may raise; the foreground is converted before the
  background. The constructor checks nothing: where an entry does not have the type of
  its field the object built is not an \<^typ>\<open>Ansi\<close>, and the model returns \<^term>\<open>None\<close>.
\<close>

definition color_from_val :: "pyval \<Rightarrow> error + color option" where
  "color_from_val v =
     (case v of
        VStr name \<Rightarrow> Inr (Some (Named name))
      | _ \<Rightarrow> (case RGB_from_dict v of Inl e \<Rightarrow> Inl e | Inr rgb \<Rightarrow> Inr (map_option Rgb rgb)))"

definition flag_from_val :: "pyval \<Rightarrow> bool option" where
  "flag_from_val v = (case v of VBool b \<Rightarrow> Some b | _ \<Rightarrow> None)"

definition Ansi_from_dict :: "(string \<times> pyval) list \<Rightarrow> error + Ansi option" where
  "Ansi_from_dict data =
     (case color_from_val (dict_get data ''fore'' (VStr ''default'')) of
        Inl e \<Rightarrow> Inl e
      | Inr fore_opt \<Rightarrow>
     (case color_from_val (dict_get data ''back'' (VStr ''default'')) of
        Inl e \<Rightarrow> Inl e
      | Inr back_opt \<Rightarrow>
          Inr (do {
            f \<leftarrow> fore_opt;
            b \<leftarrow> back_opt;
            bo \<leftarrow> flag_from_val (dict_get data ''bold'' (VBool False));
            di \<leftarrow> flag_from_val (dict_get data ''dim'' (VBool False));
            it \<leftarrow> flag_from_val (dict_get data ''italic'' (VBool False));
            un \<leftarrow> flag_from_val (dict_get data ''underline'' (VBool False));
            st \<leftarrow> flag_from_val (dict_get data ''strikethrough'' (VBool False));
            inv \<leftarrow> flag_from_val (dict_get data ''inverse'' (VBool False));
            re \<leftarrow> flag_from_val (dict_get data ''reset'' (VBool True));
            Some \<lparr>fore = f, back_color = b, bold = bo, dim_flag = di, italic = it,
                  underline = un, strikethrough = st, inverse_flag = inv, reset = re\<rparr>
          })))"

subsection \<open>The function \<^verbatim>\<open>gradient\<close>\<close>

text \<open>
  One channel of one sample:
  \<^verbatim>\<open>int(color1.red + (color2.red - color1.red) * step / (steps - 1))\<close>.
\<close>

definition channel :: "int \<Rightarrow> int \<Rightarrow> int \<Rightarrow> int \<Rightarrow> error + int" where
  "channel c1 c2 step steps =
     (case truediv ((c2 - c1) * step) (steps - 1) of
        Inl e \<Rightarrow> Inl e
      | Inr q \<Rightarrow> Inr (py_int (of_int c1 + q)))"

text \<open>
  The body of \<^verbatim>\<open>for step in range(steps)\<close>, run over the remaining indices with the
  list \<^verbatim>\<open>gradient_colors\<close> built so far.
\<close>

fun gradient_loop ::
  "int RGB \<Rightarrow> int RGB \<Rightarrow> int \<Rightarrow> int list \<Rightarrow> int RGB list \<Rightarrow> error + int RGB list" where
  "gradient_loop color1 color2 steps [] gradient_colors = Inr gradient_colors"
| "gradient_loop color1 color2 steps (step # rest) gradient_colors =
     (case channel (red color1) (red color2) step steps of
        Inl e \<Rightarrow> Inl e
      | Inr r \<Rightarrow>
     (case channel (green color1) (green color2) step steps of
        Inl e \<Rightarrow> Inl e
      | Inr g \<Rightarrow>
     (case channel (blue color1) (blue color2) step steps of
        Inl e \<Rightarrow> Inl e
      | Inr b \<Rightarrow>
          gradient_loop color1 color2 steps rest
            (gradient_colors @ [\<lparr>red = r, green = g, blue = b\<rparr>]))))"

definition gradient :: "int RGB \<Rightarrow> int RGB \<Rightarrow> int \<Rightarrow> error + int RGB list" where
  "gradient color1 color2 steps = gradient_loop color1 color2 steps (py_range steps) []"

text \<open>
  The sample formula in the specification's words: for sample index \<open>i\<close>, each channel
  is \<open>colorA.channel + (colorB.channel - colorA.channel) * i / (steps - 1)\<close>, truncated to
  an integer.
\<close>

definition spec_channel :: "int \<Rightarrow> int \<Rightarrow> int \<Rightarrow> int \<Rightarrow> int" where
  "spec_channel cA cB i steps =
     py_int (rat_of_int cA + rat_of_int (cB - cA) * rat_of_int i / rat_of_int (steps - 1))"

definition spec_sample :: "int RGB \<Rightarrow> int RGB \<Rightarrow> int \<Rightarrow> int \<Rightarrow> int RGB" where
  "spec_sample colorA colorB steps i =
     \<lparr>red = spec_channel (red colorA) (red colorB) i steps,
      green = spec_channel (green colorA) (green colorB) i steps,
      blue = spec_channel (blue colorA) (blue colorB) i steps\<rparr>"

subsection \<open>The function \<^verbatim>\<open>adv_gradient\<close>\<close>

text \<open>
  \<^verbatim>\<open>for i, n in enumerate(col_arr_perc[1:], 1): perc.append(n - col_arr_perc[i-1])\<close>
\<close>

fun perc_loop :: "int list \<Rightarrow> (int \<times> int) list \<Rightarrow> int list \<Rightarrow> error + int list" where
  "perc_loop col_arr_perc [] perc = Inr perc"
| "perc_loop col_arr_perc ((i, n) # rest) perc =
     (case index col_arr_perc (i - 1) of
        Inl e \<Rightarrow> Inl e
      | Inr p \<Rightarrow> perc_loop col_arr_perc rest (perc @ [n - p]))"

text \<open>
  \<^verbatim>\<open>for i in perc: steps_per.append(round((i / sum(perc)) * steps))\<close>. The
  quotient of the two ints is a float, and so is its product with \<^verbatim>\<open>steps\<close>: each is
  rounded to binary64.
\<close>

fun steps_per_loop :: "int list \<Rightarrow> int \<Rightarrow> int list \<Rightarrow> int list \<Rightarrow> error + int list" where
  "steps_per_loop perc steps [] steps_per = Inr steps_per"
| "steps_per_loop perc steps (i # rest) steps_per =
     (case truediv i (sum_list perc) of
        Inl e \<Rightarrow> Inl e
      | Inr q \<Rightarrow>
          steps_per_loop perc steps rest
            (steps_per @ [py_round (round_binary64 (round_binary64 q * of_int steps))]))"

text \<open>
  \<^verbatim>\<open>for i, steps in enumerate(steps_per):\<close>
  \<^verbatim>\<open>    result = result + gradient(sorted_cols[i][0], sorted_cols[i+1][0], steps)\<close>
\<close>

fun middle_loop ::
  "(int RGB \<times> int) list \<Rightarrow> (int \<times> int) list \<Rightarrow> int RGB list \<Rightarrow> error + int RGB list" where
  "middle_loop sorted_cols [] result = Inr result"
| "middle_loop sorted_cols ((i, steps) # rest) result =
     (case index sorted_cols i of
        Inl e \<Rightarrow> Inl e
      | Inr a \<Rightarrow>
     (case index sorted_cols (i + 1) of
        Inl e \<Rightarrow> Inl e
      | Inr b \<Rightarrow>
     (case gradient (fst a) (fst b) steps of
        Inl e \<Rightarrow> Inl e
      | Inr g \<Rightarrow> middle_loop sorted_cols rest (result @ g))))"

text \<open>
  The block that adds the constant run at the beginning and pops its entry of
  \<^verbatim>\<open>steps_per\<close>; it returns \<^verbatim>\<open>result\<close> and \<^verbatim>\<open>steps_per\<close>.
\<close>

definition leading_block ::
  "int RGB \<times> int \<Rightarrow> int list \<Rightarrow> error + int RGB list \<times> int list" where
  "leading_block first steps_per =
     (if snd first \<noteq> 0 then
        (case index steps_per 0 of
           Inl e \<Rightarrow> Inl e
         | Inr k \<Rightarrow> Inr (append_run [] (fst first) k, tl steps_per))
      else Inr ([], steps_per))"

text \<open>
  \<^verbatim>\<open>last = steps_per.pop(-1)\<close>, run when the highest stop is not at 100; it returns
  \<^verbatim>\<open>steps_per\<close> and \<^verbatim>\<open>last\<close> (\<^verbatim>\<open>last\<close> stays unbound otherwise, and is not read then).
\<close>

definition pop_block :: "int RGB \<times> int \<Rightarrow> int list \<Rightarrow> error + int list \<times> int" where
  "pop_block final steps_per =
     (if snd final \<noteq> 100 then
        (case index steps_per (- 1) of
           Inl e \<Rightarrow> Inl e
         | Inr k \<Rightarrow> Inr (butlast steps_per, k))
      else Inr (steps_per, 0))"

text \<open>
  The block that adds the constant run at the end: \<^verbatim>\<open>steps_per.append(last)\<close>, then
  \<^verbatim>\<open>for _ in range(steps_per[-1]): result.append(sorted_cols[-1][0])\<close>.
\<close>

definition trailing_block :: "int RGB \<times> int \<Rightarrow> int \<Rightarrow> int RGB list \<Rightarrow> int RGB list" where
  "trailing_block final last_steps result =
     (if snd final \<noteq> 100 then append_run result (fst final) last_steps else result)"

definition adv_gradient :: "(int RGB \<times> int) list \<Rightarrow> int \<Rightarrow> error + int RGB list" where
  "adv_gradient colors steps =
     (let sorted_cols = sort_key snd colors in
      case index sorted_cols 0 of
        Inl e \<Rightarrow> Inl e
      | Inr first \<Rightarrow>
     (case index sorted_cols (- 1) of
        Inl e \<Rightarrow> Inl e
      | Inr final \<Rightarrow>
     (let col_arr_perc =
            (if snd first \<noteq> 0 then [0] else []) @ map snd sorted_cols @
            (if snd final \<noteq> 100 then [100] else [])
      in
      case perc_loop col_arr_perc (py_enumerate (drop 1 col_arr_perc) 1) [] of
        Inl e \<Rightarrow> Inl e
      | Inr perc \<Rightarrow>
     (case steps_per_loop perc steps perc [] of
        Inl e \<Rightarrow> Inl e
      | Inr steps_per \<Rightarrow>
     (case leading_block first steps_per of
        Inl e \<Rightarrow> Inl e
      | Inr (result, steps_per1) \<Rightarrow>
     (case pop_block final steps_per1 of
        Inl e \<Rightarrow> Inl e
      | Inr (steps_per2, last_steps) \<Rightarrow>
     (case middle_loop sorted_cols (py_enumerate steps_per2 0) result of
        Inl e \<Rightarrow> Inl e
      | Inr result1 \<Rightarrow> Inr (trailing_block final last_steps result1))))))))"

subsection \<open>The advanced gradient in the specification's words\<close>

text \<open>
  The specification describes the result of \<^verbatim>\<open>adv_gradient\<close> by its parts. The
  definitions below follow its wording; the theorems relate them to the function above.

  The markers: the percentages of the sorted stops, with a 0 in front when the lowest
  stop is not at 0 and a 100 behind when the highest is not at 100 (the list
  \<^verbatim>\<open>col_arr_perc\<close> of the source).
\<close>

definition markers :: "(int RGB \<times> int) list \<Rightarrow> int list" where
  "markers cols =
     (if snd (hd cols) \<noteq> 0 then [0] else []) @ map snd cols @
     (if snd (last cols) \<noteq> 100 then [100] else [])"

text \<open>The percentage span between each consecutive pair of markers.\<close>

fun spans :: "int list \<Rightarrow> int list" where
  "spans (p # q # ps) = (q - p) # spans (q # ps)"
| "spans _ = []"

text \<open>
  The steps allocated to a span: \<^verbatim>\<open>round(span_fraction * steps)\<close>, the fraction being
  the span over the whole of 100, in the machine's arithmetic.
\<close>

definition allocation :: "int \<Rightarrow> int \<Rightarrow> int" where
  "allocation steps width =
     py_round (round_binary64 (round_binary64 (rat_of_int width / 100) * rat_of_int steps))"

text \<open>
  The interpolated middle: for every pair of consecutive real stops, \<^verbatim>\<open>gradient\<close> on
  their colours with the steps allocated to their span, concatenated in order. The
  first segment that raises ends the computation.
\<close>

fun segments :: "int \<Rightarrow> (int RGB \<times> int) list \<Rightarrow> error + int RGB list" where
  "segments steps (a # b # rest) =
     (case gradient (fst a) (fst b) (allocation steps (snd b - snd a)) of
        Inl e \<Rightarrow> Inl e
      | Inr g \<Rightarrow>
          (case segments steps (b # rest) of
             Inl e \<Rightarrow> Inl e
           | Inr gs \<Rightarrow> Inr (g @ gs)))"
| "segments steps _ = Inr []"

text \<open>
  The constant runs of the synthetic segments: the first real colour over the steps
  allocated to the span from 0 to the lowest stop, and the last real colour over the
  steps allocated to the span from the highest stop to 100.
\<close>

definition leading_run :: "int \<Rightarrow> (int RGB \<times> int) list \<Rightarrow> int RGB list" where
  "leading_run steps stops =
     (if snd (hd stops) \<noteq> 0
      then replicate (nat (allocation steps (snd (hd stops)))) (fst (hd stops))
      else [])"

definition trailing_run :: "int \<Rightarrow> (int RGB \<times> int) list \<Rightarrow> int RGB list" where
  "trailing_run steps stops =
     (if snd (last stops) \<noteq> 100
      then replicate (nat (allocation steps (100 - snd (last stops)))) (fst (last stops))
      else [])"

section \<open>Properties of \<^verbatim>\<open>RGB\<close> and \<^verbatim>\<open>Ansi\<close>\<close>

text \<open>
  Claim C8. For every pair of colours \<open>a\<close> and \<open>b\<close>, \<^verbatim>\<open>a + b\<close> returns a colour whose
  channels are the arithmetic means \<open>(a.channel + b.channel) / 2\<close> of the operands'
  channels, and for every operand that is not an \<^verbatim>\<open>RGB\<close> it fails with a type error.
\<close>

theorem RGB_add_mean:
  "RGB_add a (RGBObj b) =
     Inr \<lparr>red = (rat_of_int (red a) + rat_of_int (red b)) / 2,
          green = (rat_of_int (green a) + rat_of_int (green b)) / 2,
          blue = (rat_of_int (blue a) + rat_of_int (blue b)) / 2\<rparr> \<and>
   (\<forall>x. (\<forall>r. x \<noteq> RGBObj r) \<longrightarrow> RGB_add a x = Inl TypeError)"
proof
  show "RGB_add a (RGBObj b) =
     Inr \<lparr>red = (rat_of_int (red a) + rat_of_int (red b)) / 2,
          green = (rat_of_int (green a) + rat_of_int (green b)) / 2,
          blue = (rat_of_int (blue a) + rat_of_int (blue b)) / 2\<rparr>"
    by simp
next
  show "\<forall>x. (\<forall>r. x \<noteq> RGBObj r) \<longrightarrow> RGB_add a x = Inl TypeError"
  proof (intro allI impI)
    fix x
    assume "\<forall>r. x \<noteq> RGBObj r"
    then show "RGB_add a x = Inl TypeError"
      by (cases x) simp_all
  qed
qed

theorem RGB_add_mean_witness:
  "RGB_add \<lparr>red = 255, green = 0, blue = 10\<rparr> (RGBObj \<lparr>red = 0, green = 0, blue = 20\<rparr>) =
     Inr \<lparr>red = 255 / 2, green = 0, blue = 15\<rparr> \<and>
   RGB_add \<lparr>red = 255, green = 0, blue = 10\<rparr> (Val (VInt 3)) = Inl TypeError \<and>
   RGB_add \<lparr>red = 255, green = 0, blue = 10\<rparr> (AnsiObj Ansi_defaults) = Inl TypeError"
  using RGB_add_mean
    [of "\<lparr>red = 255, green = 0, blue = 10\<rparr>" "\<lparr>red = 0, green = 0, blue = 20\<rparr>"]
  by simp

lemma RGB_roundtrip: "RGB_from_dict (VDict (RGB_to_dict c)) = Inr (Some c)"
  by (simp add: RGB_from_dict_def RGB_to_dict_def subscript_def)

lemma color_roundtrip: "color_from_val (color_to_val c) = Inr (Some c)"
  by (cases c) (simp_all add: color_from_val_def color_to_val_def RGB_roundtrip)

text \<open>
  Claim C6. Rebuilding from the structural record is lossless: for every colour \<open>c\<close>,
  \<^verbatim>\<open>RGB.from_dict(c.to_dict())\<close> is \<open>c\<close>, and for every style \<open>x\<close>, whether its colours are
  names or \<^verbatim>\<open>RGB\<close> values, \<^verbatim>\<open>Ansi.from_dict(x.to_dict())\<close> is \<open>x\<close>. Equality of
  \<^typ>\<open>Ansi\<close> is equality of all nine fields, as \<^verbatim>\<open>Ansi.__eq__\<close> has it.
\<close>

theorem dict_roundtrip:
  "RGB_from_dict (VDict (RGB_to_dict c)) = Inr (Some c) \<and>
   Ansi_from_dict (Ansi_to_dict x) = Inr (Some x)"
proof
  show "RGB_from_dict (VDict (RGB_to_dict c)) = Inr (Some c)"
    by (rule RGB_roundtrip)
next
  have fg: "dict_get (Ansi_to_dict x) ''fore'' d = color_to_val (fore x)" for d
    by (simp add: dict_get_def Ansi_to_dict_def)
  have bg: "dict_get (Ansi_to_dict x) ''back'' d = color_to_val (back_color x)" for d
    by (simp add: dict_get_def Ansi_to_dict_def)
  have flags:
    "dict_get (Ansi_to_dict x) ''bold'' d = VBool (bold x)"
    "dict_get (Ansi_to_dict x) ''dim'' d = VBool (dim_flag x)"
    "dict_get (Ansi_to_dict x) ''italic'' d = VBool (italic x)"
    "dict_get (Ansi_to_dict x) ''underline'' d = VBool (underline x)"
    "dict_get (Ansi_to_dict x) ''strikethrough'' d = VBool (strikethrough x)"
    "dict_get (Ansi_to_dict x) ''inverse'' d = VBool (inverse_flag x)"
    "dict_get (Ansi_to_dict x) ''reset'' d = VBool (reset x)" for d
    by (simp_all add: dict_get_def Ansi_to_dict_def)
  show "Ansi_from_dict (Ansi_to_dict x) = Inr (Some x)"
    unfolding Ansi_from_dict_def fg bg flags
    by (simp add: color_roundtrip flag_from_val_def)
qed

text \<open>A style with an \<^verbatim>\<open>RGB\<close> foreground, through the record and back.\<close>

lemma dict_roundtrip_example:
  "Ansi_to_dict (Ansi_defaults\<lparr>fore := Rgb \<lparr>red = 255, green = 0, blue = 0\<rparr>, reset := False\<rparr>) =
     [(''fore'', VDict [(''red'', VInt 255), (''green'', VInt 0), (''blue'', VInt 0)]),
      (''back'', VStr ''default''), (''bold'', VBool False), (''dim'', VBool False),
      (''italic'', VBool False), (''underline'', VBool False),
      (''strikethrough'', VBool False), (''inverse'', VBool False),
      (''reset'', VBool False)] \<and>
   Ansi_from_dict
     (Ansi_to_dict (Ansi_defaults\<lparr>fore := Rgb \<lparr>red = 255, green = 0, blue = 0\<rparr>, reset := False\<rparr>)) =
     Inr (Some (Ansi_defaults\<lparr>fore := Rgb \<lparr>red = 255, green = 0, blue = 0\<rparr>, reset := False\<rparr>))"
  by code_simp

text \<open>
  Claim C7. Merging \<open>self\<close> onto \<open>other\<close> returns a style whose foreground is that of
  \<open>self\<close> unless it is \<^verbatim>\<open>'default'\<close>, in which case it is that of \<open>other\<close>; whose
  background is determined likewise; and whose six boolean attributes are each the
  disjunction of the operands' attributes.
\<close>

theorem merge_fields:
  "\<exists>r. Ansi_add self (AnsiObj other) = Inr (Style r) \<and>
     fore r = (if fore self = Named ''default'' then fore other else fore self) \<and>
     back_color r =
       (if back_color self = Named ''default'' then back_color other else back_color self) \<and>
     bold r = (bold self \<or> bold other) \<and>
     dim_flag r = (dim_flag self \<or> dim_flag other) \<and>
     italic r = (italic self \<or> italic other) \<and>
     underline r = (underline self \<or> underline other) \<and>
     strikethrough r = (strikethrough self \<or> strikethrough other) \<and>
     inverse_flag r = (inverse_flag self \<or> inverse_flag other)"
  by (simp add: Ansi_defaults_def)

text \<open>
  The example of the claim: a style with the default foreground merged onto one with a
  blue foreground has a blue foreground.
\<close>

lemma merge_default_onto_blue:
  "Ansi_add (Ansi_defaults\<lparr>bold := True\<rparr>) (AnsiObj (Ansi_defaults\<lparr>fore := Named ''blue''\<rparr>)) =
     Inr (Style (Ansi_defaults\<lparr>fore := Named ''blue'', bold := True\<rparr>))"
  by (simp add: Ansi_defaults_def)

text \<open>
  Claim C10. Whatever the \<^verbatim>\<open>reset\<close> flags of the operands, the style that merging
  returns has \<^verbatim>\<open>reset\<close> set: \<^verbatim>\<open>__add__\<close> does not pass \<^verbatim>\<open>reset\<close> to the
  constructor, whose default is \<^verbatim>\<open>True\<close>.
\<close>

theorem merge_reset: "\<exists>r. Ansi_add self (AnsiObj other) = Inr (Style r) \<and> reset r"
  by (simp add: Ansi_defaults_def)

text \<open>Two styles with \<^verbatim>\<open>reset\<close> cleared merge into one with \<^verbatim>\<open>reset\<close> set.\<close>

lemma merge_reset_example:
  "Ansi_add (Ansi_defaults\<lparr>reset := False\<rparr>) (AnsiObj (Ansi_defaults\<lparr>reset := False\<rparr>)) =
     Inr (Style Ansi_defaults)"
  by (simp add: Ansi_defaults_def)

section \<open>Properties of \<^verbatim>\<open>gradient\<close>\<close>

lemma py_int_of_int: "py_int (rat_of_int k) = k"
  by (simp add: py_int_def)

lemma length_py_range: "length (py_range n) = nat n"
  by (simp add: py_range_def)

lemma nth_py_range: "i < nat n \<Longrightarrow> py_range n ! i = int i"
  by (simp add: py_range_def)

lemma py_range_nonpositive: "n \<le> 0 \<Longrightarrow> py_range n = []"
  by (simp add: py_range_def)

lemma channel_returns:
  "steps \<noteq> 1 \<Longrightarrow> channel c1 c2 step steps = Inr (spec_channel c1 c2 step steps)"
  by (simp add: channel_def truediv_def spec_channel_def)

lemma channel_raises: "channel c1 c2 step 1 = Inl ZeroDivisionError"
  by (simp add: channel_def truediv_def)

lemma gradient_loop_returns:
  "steps \<noteq> 1 \<Longrightarrow>
   gradient_loop a b steps idxs acc = Inr (acc @ map (spec_sample a b steps) idxs)"
  by (induction idxs arbitrary: acc) (simp_all add: channel_returns spec_sample_def)

text \<open>
  Any step count but 1 returns, and the samples are those of the formula; the step
  count 1 raises, the divisor \<^verbatim>\<open>steps - 1\<close> being zero at the only index.
\<close>

lemma gradient_returns:
  "steps \<noteq> 1 \<Longrightarrow> gradient a b steps = Inr (map (spec_sample a b steps) (py_range steps))"
  by (simp add: gradient_def gradient_loop_returns)

lemma gradient_one_step: "gradient a b 1 = Inl ZeroDivisionError"
  by (simp add: gradient_def py_range_def channel_raises)

lemma spec_channel_first: "spec_channel cA cB 0 steps = cA"
  by (simp add: spec_channel_def py_int_of_int)

lemma spec_channel_last:
  assumes "steps \<noteq> 1"
  shows "spec_channel cA cB (steps - 1) steps = cB"
proof -
  from assms have "rat_of_int (steps - 1) \<noteq> 0"
    by simp
  then have "rat_of_int (cB - cA) * rat_of_int (steps - 1) / rat_of_int (steps - 1) =
      rat_of_int (cB - cA)"
    by simp
  then have "rat_of_int cA +
      rat_of_int (cB - cA) * rat_of_int (steps - 1) / rat_of_int (steps - 1) = rat_of_int cB"
    by simp
  then show ?thesis
    unfolding spec_channel_def by (simp only: py_int_of_int)
qed

text \<open>The example of the specification: black to white in three samples.\<close>

lemma gradient_black_white:
  "gradient \<lparr>red = 0, green = 0, blue = 0\<rparr> \<lparr>red = 255, green = 255, blue = 255\<rparr> 3 =
     Inr [\<lparr>red = 0, green = 0, blue = 0\<rparr>, \<lparr>red = 127, green = 127, blue = 127\<rparr>,
          \<lparr>red = 255, green = 255, blue = 255\<rparr>]"
  by code_simp

text \<open>
  Claim C1. For every pair of colours and every \<open>steps \<ge> 2\<close>, \<^verbatim>\<open>gradient\<close> returns a
  list of exactly \<open>steps\<close> colours; the colour at index \<open>i\<close> has each channel equal to
  \<open>colorA.channel + (colorB.channel - colorA.channel) * i / (steps - 1)\<close> truncated to an
  integer; the first colour is \<open>colorA\<close> and the last one is \<open>colorB\<close>.
\<close>

theorem gradient_samples:
  assumes "2 \<le> steps"
  shows "\<exists>xs. gradient colorA colorB steps = Inr xs \<and> length xs = nat steps \<and>
           (\<forall>i<nat steps. xs ! i =
              \<lparr>red = py_int (rat_of_int (red colorA) +
                   rat_of_int (red colorB - red colorA) * rat_of_int (int i) /
                     rat_of_int (steps - 1)),
               green = py_int (rat_of_int (green colorA) +
                   rat_of_int (green colorB - green colorA) * rat_of_int (int i) /
                     rat_of_int (steps - 1)),
               blue = py_int (rat_of_int (blue colorA) +
                   rat_of_int (blue colorB - blue colorA) * rat_of_int (int i) /
                     rat_of_int (steps - 1))\<rparr>) \<and>
           xs ! 0 = colorA \<and> xs ! (nat steps - 1) = colorB"
proof -
  let ?xs = "map (spec_sample colorA colorB steps) (py_range steps)"
  from assms have ne: "steps \<noteq> 1"
    by simp
  have ret: "gradient colorA colorB steps = Inr ?xs"
    using ne by (rule gradient_returns)
  have len: "length ?xs = nat steps"
    by (simp add: length_py_range)
  have nth: "?xs ! i = spec_sample colorA colorB steps (int i)" if "i < nat steps" for i
    using that by (simp add: length_py_range nth_py_range)
  have first: "?xs ! 0 = colorA"
    using assms nth [of 0] by (simp add: spec_sample_def spec_channel_first)
  have "int (nat steps - 1) = steps - 1"
    using assms by simp
  then have final: "?xs ! (nat steps - 1) = colorB"
    using assms ne nth [of "nat steps - 1"] by (simp add: spec_sample_def spec_channel_last)
  show ?thesis
    using ret len nth first final by (auto simp: spec_sample_def spec_channel_def)
qed

theorem gradient_samples_witness:
  "(2::int) \<le> 3 \<and>
   (\<exists>xs. gradient \<lparr>red = 0, green = 0, blue = 0\<rparr> \<lparr>red = 255, green = 255, blue = 255\<rparr> 3 =
            Inr xs \<and>
      length xs = 3 \<and> xs ! 0 = \<lparr>red = 0, green = 0, blue = 0\<rparr> \<and>
      xs ! 2 = \<lparr>red = 255, green = 255, blue = 255\<rparr>)"
  using gradient_samples
    [of 3 "\<lparr>red = 0, green = 0, blue = 0\<rparr>" "\<lparr>red = 255, green = 255, blue = 255\<rparr>"]
  by auto

text \<open>
  Claim C2, as the specification states it: for every \<open>steps \<le> 1\<close> the function fails
  with an invalid-argument error. The function validates nothing. At \<open>steps = 0\<close> it
  returns the empty list, and at \<open>steps = 1\<close> the exception is the division's.
\<close>

theorem gradient_no_validation_counterexample:
  "gradient \<lparr>red = 0, green = 0, blue = 0\<rparr> \<lparr>red = 255, green = 255, blue = 255\<rparr> 0 = Inr [] \<and>
   gradient \<lparr>red = 0, green = 0, blue = 0\<rparr> \<lparr>red = 255, green = 255, blue = 255\<rparr> 0 \<noteq>
     Inl ValueError \<and>
   gradient \<lparr>red = 0, green = 0, blue = 0\<rparr> \<lparr>red = 255, green = 255, blue = 255\<rparr> 1 \<noteq>
     Inl ValueError"
  by (simp add: gradient_def py_range_def channel_raises)

text \<open>
  Claim C2, amended: for every pair of colours and every \<open>steps \<le> 0\<close>, \<^verbatim>\<open>gradient\<close>
  raises nothing and returns the empty list.
\<close>

theorem gradient_nonpositive_steps:
  "steps \<le> 0 \<Longrightarrow> gradient color1 color2 steps = Inr []"
  by (simp add: gradient_def py_range_nonpositive)

theorem gradient_nonpositive_steps_witness:
  "(- 5::int) \<le> 0 \<and>
   gradient \<lparr>red = 10, green = 20, blue = 30\<rparr> \<lparr>red = 255, green = 0, blue = 9\<rparr> (- 5) = Inr []"
  using gradient_nonpositive_steps
    [of "- 5" "\<lparr>red = 10, green = 20, blue = 30\<rparr>" "\<lparr>red = 255, green = 0, blue = 9\<rparr>"]
  by simp

text \<open>
  Claim C9. With \<open>steps = 0\<close> the loop body is never reached: \<^verbatim>\<open>gradient\<close> raises
  nothing and returns the empty list, whatever the two colours.
\<close>

theorem gradient_zero_steps: "gradient color1 color2 0 = Inr []"
  by (simp add: gradient_def py_range_def)

section \<open>Properties of \<^verbatim>\<open>adv_gradient\<close>\<close>

subsection \<open>The loops\<close>

lemma py_enumerate_Nil: "py_enumerate [] start = []"
  by (simp add: py_enumerate_def)

lemma py_enumerate_Cons: "py_enumerate (x # xs) start = (start, x) # py_enumerate xs (start + 1)"
proof -
  have "[0..<Suc (length xs)] = 0 # map Suc [0..<length xs]"
    by (simp add: upt_conv_Cons map_Suc_upt del: upt_Suc)
  then show ?thesis
    by (simp add: py_enumerate_def comp_def add.assoc del: upt_Suc)
qed

lemma index_nat: "j < length xs \<Longrightarrow> index xs (int j) = Inr (xs ! j)"
  by (simp add: index_def)

lemma index_first: "xs \<noteq> [] \<Longrightarrow> index xs 0 = Inr (hd xs)"
  by (cases xs) (simp_all add: index_def)

lemma index_last: "xs \<noteq> [] \<Longrightarrow> index xs (- 1) = Inr (last xs)"
proof -
  assume ne: "xs \<noteq> []"
  then have "nat (int (length xs) - 1) = length xs - 1"
    by (cases xs) simp_all
  with ne show ?thesis
    by (simp add: index_def last_conv_nth)
qed

lemma index_empty: "index [] i = Inl IndexError"
  by (simp add: index_def)

lemma append_run_replicate: "append_run result c k = result @ replicate (nat k) c"
proof -
  have "foldl (\<lambda>r _. r @ [c]) result idxs = result @ replicate (length idxs) c"
    for idxs :: "int list"
    by (induction idxs arbitrary: result) (simp_all add: replicate_append_same)
  then show ?thesis
    by (simp add: append_run_def length_py_range)
qed

lemma perc_loop_suffix:
  "m = pre @ p # xs \<Longrightarrow> s = int (length pre) + 1 \<Longrightarrow>
   perc_loop m (py_enumerate xs s) acc = Inr (acc @ spans (p # xs))"
proof (induction xs arbitrary: pre p s acc)
  case Nil
  then show ?case
    by (simp add: py_enumerate_Nil)
next
  case (Cons x xs)
  have idx: "index m (s - 1) = Inr p"
    using Cons.prems by (simp add: index_def)
  have "m = (pre @ [p]) @ x # xs" and "s + 1 = int (length (pre @ [p])) + 1"
    using Cons.prems by simp_all
  then have "perc_loop m (py_enumerate xs (s + 1)) (acc @ [x - p]) =
      Inr ((acc @ [x - p]) @ spans (x # xs))"
    by (rule Cons.IH)
  then show ?case
    using idx by (simp add: py_enumerate_Cons)
qed

lemma perc_loop_spans:
  "m \<noteq> [] \<Longrightarrow> perc_loop m (py_enumerate (drop 1 m) 1) [] = Inr (spans m)"
proof -
  assume "m \<noteq> []"
  then obtain p xs where m: "m = p # xs"
    by (cases m) simp_all
  then have "perc_loop m (py_enumerate xs 1) [] = Inr ([] @ spans (p # xs))"
    by (intro perc_loop_suffix [where pre = "[]"]) simp_all
  with m show ?thesis
    by simp
qed

lemma steps_per_loop_allocation:
  "sum_list perc = 100 \<Longrightarrow>
   steps_per_loop perc steps xs acc = Inr (acc @ map (allocation steps) xs)"
  by (induction xs arbitrary: acc) (simp_all add: truediv_def allocation_def)

lemma sum_list_spans: "ps \<noteq> [] \<Longrightarrow> sum_list (spans ps) = last ps - hd ps"
  by (induction ps rule: spans.induct) simp_all

lemma spans_snoc: "ps \<noteq> [] \<Longrightarrow> spans (ps @ [q]) = spans ps @ [q - last ps]"
  by (induction ps rule: spans.induct) simp_all

lemma spans_Cons: "ps \<noteq> [] \<Longrightarrow> spans (p # ps) = (hd ps - p) # spans ps"
  by (cases ps) simp_all

lemma length_spans: "length (spans ps) = length ps - 1"
  by (induction ps rule: spans.induct) simp_all

lemma middle_loop_suffix:
  "cols = pre @ a # rest \<Longrightarrow> s = int (length pre) \<Longrightarrow>
   middle_loop cols
     (py_enumerate (map (allocation steps) (spans (map snd (a # rest)))) s) acc =
   (case segments steps (a # rest) of Inl e \<Rightarrow> Inl e | Inr g \<Rightarrow> Inr (acc @ g))"
proof (induction rest arbitrary: pre a s acc)
  case Nil
  then show ?case
    by (simp add: py_enumerate_Nil)
next
  case (Cons b rest)
  have i0: "index cols s = Inr a"
    using Cons.prems by (simp add: index_def)
  have i1: "index cols (s + 1) = Inr b"
    using Cons.prems by (simp add: index_def nat_add_distrib nth_append)
  have "cols = (pre @ [a]) @ b # rest" and "s + 1 = int (length (pre @ [a]))"
    using Cons.prems by simp_all
  then have IH: "middle_loop cols
      (py_enumerate (map (allocation steps) (spans (map snd (b # rest)))) (s + 1)) acc' =
      (case segments steps (b # rest) of Inl e \<Rightarrow> Inl e | Inr g \<Rightarrow> Inr (acc' @ g))"
    for acc'
    by (rule Cons.IH)
  show ?case
    using i0 i1 IH by (simp add: py_enumerate_Cons split: sum.splits)
qed

lemma middle_loop_segments:
  "middle_loop cols (py_enumerate (map (allocation steps) (spans (map snd cols))) 0) acc =
   (case segments steps cols of Inl e \<Rightarrow> Inl e | Inr g \<Rightarrow> Inr (acc @ g))"
proof (cases cols)
  case Nil
  then show ?thesis
    by (simp add: py_enumerate_Nil)
next
  case (Cons a rest)
  then show ?thesis
    using middle_loop_suffix [of cols "[]" a rest 0 steps acc] by simp
qed

subsection \<open>The markers and their spans\<close>

lemma markers_nonempty: "cols \<noteq> [] \<Longrightarrow> markers cols \<noteq> []"
  by (simp add: markers_def)

lemma hd_markers: "cols \<noteq> [] \<Longrightarrow> hd (markers cols) = 0"
  by (simp add: markers_def hd_append hd_map)

lemma last_markers: "cols \<noteq> [] \<Longrightarrow> last (markers cols) = 100"
  by (simp add: markers_def last_append last_map)

lemma sum_spans_markers: "cols \<noteq> [] \<Longrightarrow> sum_list (spans (markers cols)) = 100"
  by (simp add: sum_list_spans markers_nonempty hd_markers last_markers)

lemma spans_markers:
  assumes "cols \<noteq> []"
  shows "spans (markers cols) =
     (if snd (hd cols) \<noteq> 0 then [snd (hd cols)] else []) @ spans (map snd cols) @
     (if snd (last cols) \<noteq> 100 then [100 - snd (last cols)] else [])"
proof -
  let ?ps = "map snd cols"
  from assms have ps: "?ps \<noteq> []"
    by simp
  have tail: "spans (?ps @ (if snd (last cols) \<noteq> 100 then [100] else [])) =
      spans ?ps @ (if snd (last cols) \<noteq> 100 then [100 - snd (last cols)] else [])"
    using assms ps by (simp add: spans_snoc last_map)
  have "spans (markers cols) =
      (if snd (hd cols) \<noteq> 0 then [snd (hd cols)] else []) @
      spans (?ps @ (if snd (last cols) \<noteq> 100 then [100] else []))"
    using assms ps by (simp add: markers_def spans_Cons hd_append hd_map)
  with tail show ?thesis
    by simp
qed

subsection \<open>The result, by its parts\<close>

text \<open>
  The whole function in terms of the sorted stops: the exception of the first middle
  segment that raises, or else the leading run, the interpolated middle and the
  trailing run, in this order. An empty list of stops raises \<^verbatim>\<open>IndexError\<close>.
\<close>

lemma adv_gradient_sorted_cols:
  assumes "sort_key snd stops = cols" and "cols \<noteq> []"
  shows "adv_gradient stops steps =
     (case segments steps cols of
        Inl e \<Rightarrow> Inl e
      | Inr middle \<Rightarrow> Inr (leading_run steps cols @ middle @ trailing_run steps cols))"
proof -
  let ?alloc = "map (allocation steps)"
  have first: "index cols 0 = Inr (hd cols)" and final: "index cols (- 1) = Inr (last cols)"
    using assms(2) by (simp_all add: index_first index_last)
  have perc: "perc_loop (markers cols) (py_enumerate (drop 1 (markers cols)) 1) [] =
      Inr (spans (markers cols))"
    using assms(2) by (intro perc_loop_spans markers_nonempty)
  have steps_per: "steps_per_loop (spans (markers cols)) steps (spans (markers cols)) [] =
      Inr (?alloc (spans (markers cols)))"
    using assms(2) by (simp add: steps_per_loop_allocation sum_spans_markers)
  have lead: "leading_block (hd cols) (?alloc (spans (markers cols))) =
      Inr (leading_run steps cols,
           ?alloc (spans (map snd cols) @
             (if snd (last cols) \<noteq> 100 then [100 - snd (last cols)] else [])))"
    using assms(2)
    by (simp add: leading_block_def spans_markers index_def append_run_replicate leading_run_def)
  have pop: "pop_block (last cols)
      (?alloc (spans (map snd cols) @
         (if snd (last cols) \<noteq> 100 then [100 - snd (last cols)] else []))) =
      Inr (?alloc (spans (map snd cols)),
           (if snd (last cols) \<noteq> 100 then allocation steps (100 - snd (last cols)) else 0))"
    by (simp add: pop_block_def index_last)
  have trail: "trailing_block (last cols)
      (if snd (last cols) \<noteq> 100 then allocation steps (100 - snd (last cols)) else 0) r =
      r @ trailing_run steps cols" for r
    by (simp add: trailing_block_def append_run_replicate trailing_run_def)
  show ?thesis
    unfolding adv_gradient_def assms(1) Let_def first final sum.case
      markers_def [symmetric] perc steps_per lead pop prod.case middle_loop_segments trail
    by (simp split: sum.splits)
qed

lemma adv_gradient_empty: "adv_gradient [] steps = Inl IndexError"
  by (simp add: adv_gradient_def index_empty)

subsection \<open>The allocation in the machine's arithmetic\<close>

lemma py_round_of_int: "py_round (rat_of_int k) = k"
  by (simp add: py_round_def)

lemma round_binary64_of_int: "round_binary64 (rat_of_int k) = rat_of_int k"
  by (simp add: round_binary64_def)

text \<open>The span of 100 is allocated all the steps.\<close>

lemma allocation_whole: "allocation steps 100 = steps"
proof -
  have "round_binary64 (rat_of_int 100 / 100) = 1"
    using round_binary64_of_int [of 1] by simp
  then show ?thesis
    by (simp add: allocation_def round_binary64_of_int py_round_of_int)
qed

text \<open>
  The error of the rounding: the binary exponent brackets \<open>x\<close>, and the rounded value is
  within half a unit of the last of the 53 bits.
\<close>

lemma py_round_error: "\<bar>rat_of_int (py_round x) - x\<bar> \<le> 1 / 2"
proof -
  have "rat_of_int \<lfloor>x\<rfloor> \<le> x" and "x < rat_of_int \<lfloor>x\<rfloor> + 1"
    by linarith+
  then show ?thesis
    by (auto simp: py_round_def Let_def abs_le_iff)
qed

lemma py_round_nonneg: "0 \<le> x \<Longrightarrow> 0 \<le> py_round x"
proof -
  assume "0 \<le> x"
  then have "0 \<le> \<lfloor>x\<rfloor>"
    by simp
  then show ?thesis
    by (auto simp: py_round_def Let_def)
qed

lemma bitlen_positive: "0 < n \<Longrightarrow> 1 \<le> bitlen n"
  using bitlen_eq_zero_iff [of n] bitlen_nonneg [of n] by linarith

lemma binary_exponent_large:
  assumes "1 \<le> \<bar>x\<bar>"
  shows "power_int 2 (binary_exponent x) \<le> \<bar>x\<bar>"
    and "\<bar>x\<bar> < 2 * power_int 2 (binary_exponent x)"
proof -
  let ?n = "\<lfloor>\<bar>x\<bar>\<rfloor>"
  let ?k = "bitlen ?n"
  from assms have n: "0 < ?n"
    by simp
  then have k: "1 \<le> ?k"
    by (rule bitlen_positive)
  have e: "binary_exponent x = ?k - 1"
    using assms by (simp add: binary_exponent_def)
  have pw: "power_int (2::rat) (?k - 1) = 2 ^ nat (?k - 1)"
    using k by (simp add: power_int_nonneg_exp)
  from bitlen_bounds [OF n] have lo: "2 ^ nat (?k - 1) \<le> ?n" and hi: "?n < 2 ^ nat ?k"
    by simp_all
  have "rat_of_int (2 ^ nat (?k - 1)) \<le> rat_of_int ?n"
    using lo by (simp only: of_int_le_iff)
  also have "\<dots> \<le> \<bar>x\<bar>"
    by simp
  finally show "power_int 2 (binary_exponent x) \<le> \<bar>x\<bar>"
    by (simp add: e pw)
  from hi have "?n + 1 \<le> 2 ^ nat ?k"
    by simp
  then have "rat_of_int (?n + 1) \<le> rat_of_int (2 ^ nat ?k)"
    by (simp only: of_int_le_iff)
  moreover have "\<bar>x\<bar> < rat_of_int (?n + 1)"
    by simp linarith
  ultimately have "\<bar>x\<bar> < 2 ^ nat ?k"
    by simp
  also have "nat ?k = Suc (nat (?k - 1))"
    using k by simp
  finally show "\<bar>x\<bar> < 2 * power_int 2 (binary_exponent x)"
    by (simp add: e pw)
qed

lemma binary_exponent_small:
  assumes "x \<noteq> 0" and "\<bar>x\<bar> < 1"
  shows "power_int 2 (binary_exponent x) \<le> \<bar>x\<bar>"
    and "\<bar>x\<bar> < 2 * power_int 2 (binary_exponent x)"
proof -
  let ?y = "1 / \<bar>x\<bar>"
  let ?n = "\<lceil>?y\<rceil> - 1"
  let ?k = "bitlen ?n"
  from assms have pos: "0 < \<bar>x\<bar>"
    by simp
  with assms(2) have y: "1 < ?y"
    by (simp add: field_simps)
  then have "2 \<le> \<lceil>?y\<rceil>"
    by linarith
  then have n: "0 < ?n"
    by simp
  then have k: "1 \<le> ?k"
    by (rule bitlen_positive)
  have e: "binary_exponent x = - ?k"
    using assms(2) by (simp add: binary_exponent_def)
  have pw: "power_int (2::rat) (- ?k) = 1 / 2 ^ nat ?k"
    using k by (simp add: power_int_def field_simps)
  from bitlen_bounds [OF n] have lo: "2 ^ nat (?k - 1) \<le> ?n" and hi: "?n < 2 ^ nat ?k"
    by simp_all
  from hi have "\<lceil>?y\<rceil> \<le> 2 ^ nat ?k"
    by simp
  then have c1: "rat_of_int \<lceil>?y\<rceil> \<le> rat_of_int (2 ^ nat ?k)"
    by (simp only: of_int_le_iff)
  have c2: "?y \<le> rat_of_int \<lceil>?y\<rceil>"
    by (rule le_of_int_ceiling)
  have "?y \<le> 2 ^ nat ?k"
    using order_trans [OF c2 c1] by simp
  then have "1 \<le> 2 ^ nat ?k * \<bar>x\<bar>"
    using pos by (simp add: field_simps)
  then show "power_int 2 (binary_exponent x) \<le> \<bar>x\<bar>"
    by (simp add: e pw field_simps)
  have "rat_of_int (2 ^ nat (?k - 1)) \<le> rat_of_int ?n"
    using lo by (simp only: of_int_le_iff)
  moreover have "rat_of_int ?n < ?y"
    by simp linarith
  ultimately have "2 ^ nat (?k - 1) < ?y"
    by simp
  then have "2 ^ nat (?k - 1) * \<bar>x\<bar> < 1"
    using pos by (simp add: field_simps)
  moreover have "nat ?k = Suc (nat (?k - 1))"
    using k by simp
  ultimately have "2 ^ nat ?k * \<bar>x\<bar> < 2"
    by simp
  then show "\<bar>x\<bar> < 2 * power_int 2 (binary_exponent x)"
    by (simp add: e pw field_simps)
qed

lemma binary_exponent_bounds:
  assumes "x \<noteq> 0"
  shows "power_int 2 (binary_exponent x) \<le> \<bar>x\<bar>"
    and "\<bar>x\<bar> < 2 * power_int 2 (binary_exponent x)"
proof -
  have "1 \<le> \<bar>x\<bar> \<or> \<bar>x\<bar> < 1"
    by linarith
  then show "power_int 2 (binary_exponent x) \<le> \<bar>x\<bar>"
    using assms binary_exponent_large(1) binary_exponent_small(1) by blast
  have "1 \<le> \<bar>x\<bar> \<or> \<bar>x\<bar> < 1"
    by linarith
  then show "\<bar>x\<bar> < 2 * power_int 2 (binary_exponent x)"
    using assms binary_exponent_large(2) binary_exponent_small(2) by blast
qed

lemma round_binary64_error: "\<bar>round_binary64 x - x\<bar> \<le> \<bar>x\<bar> / 2 ^ 53"
proof -
  let ?int = "rat_of_int \<lfloor>x\<rfloor> = x"
  show ?thesis
  proof (cases ?int)
    case True
    then show ?thesis
      by (simp add: round_binary64_def)
  next
    case False
    then have nz: "x \<noteq> 0"
      by auto
    define u where "u = power_int (2::rat) (binary_exponent x - 52)"
    have u_pos: "0 < u"
      by (simp add: u_def)
    have u_eq: "u = power_int 2 (binary_exponent x) / 2 ^ 52"
      by (simp add: u_def power_int_diff)
    have r: "round_binary64 x = rat_of_int (py_round (x / u)) * u"
      using False by (simp add: round_binary64_def u_def Let_def)
    have "round_binary64 x - x = (rat_of_int (py_round (x / u)) - x / u) * u"
      using u_pos by (simp add: r field_simps)
    then have "\<bar>round_binary64 x - x\<bar> = \<bar>rat_of_int (py_round (x / u)) - x / u\<bar> * u"
      using u_pos by (simp add: abs_mult)
    also have "\<dots> \<le> 1 / 2 * u"
      using py_round_error [of "x / u"] u_pos by (intro mult_right_mono) simp_all
    also have "\<dots> = power_int 2 (binary_exponent x) / 2 ^ 53"
      by (simp add: u_eq)
    also have "\<dots> \<le> \<bar>x\<bar> / 2 ^ 53"
      using binary_exponent_bounds(1) [OF nz] by (simp add: divide_right_mono)
    finally show ?thesis .
  qed
qed

lemma round_binary64_nonneg: "0 \<le> x \<Longrightarrow> 0 \<le> round_binary64 x"
proof -
  assume x: "0 \<le> x"
  have "0 \<le> rat_of_int (py_round (x / u)) * u" if "0 < u" for u
    using x that py_round_nonneg [of "x / u"] by simp
  then show ?thesis
    using x by (simp add: round_binary64_def Let_def)
qed

lemma allocation_nonneg: "0 \<le> steps \<Longrightarrow> 0 \<le> w \<Longrightarrow> 0 \<le> allocation steps w"
  unfolding allocation_def
  by (intro py_round_nonneg round_binary64_nonneg mult_nonneg_nonneg) simp_all

text \<open>
  For a span within \<open>[0, 100]\<close> and at most \<^verbatim>\<open>2^50\<close> steps the allocation is within one
  step of the exact share of the span.
\<close>

lemma allocation_error:
  assumes "0 \<le> w" and "w \<le> 100" and "0 \<le> steps" and "steps \<le> 2 ^ 50"
  shows "\<bar>rat_of_int (allocation steps w) - rat_of_int w / 100 * rat_of_int steps\<bar> \<le> 1"
proof -
  define q where "q = rat_of_int w / 100"
  define s where "s = rat_of_int steps"
  define q' where "q' = round_binary64 q"
  define p where "p = q' * s"
  define p' where "p' = round_binary64 p"
  have q: "0 \<le> q" "q \<le> 1"
    using assms(1,2) by (simp_all add: q_def)
  have s0: "0 \<le> s"
    using assms(3) by (simp add: s_def)
  have "rat_of_int steps \<le> rat_of_int (2 ^ 50)"
    using assms(4) by (simp only: of_int_le_iff)
  then have s1: "s \<le> 2 ^ 50"
    by (simp add: s_def)
  have "\<bar>q' - q\<bar> \<le> \<bar>q\<bar> / 2 ^ 53"
    unfolding q'_def by (rule round_binary64_error)
  also have "\<dots> \<le> 1 / 2 ^ 53"
    using q by (simp add: divide_right_mono)
  finally have e1: "\<bar>q' - q\<bar> \<le> 1 / 2 ^ 53" .
  have "\<bar>p - q * s\<bar> = \<bar>q' - q\<bar> * s"
    using s0 by (simp add: p_def abs_mult left_diff_distrib [symmetric])
  also have "\<dots> \<le> 1 / 2 ^ 53 * s"
    using e1 s0 by (rule mult_right_mono)
  finally have a: "\<bar>p - q * s\<bar> \<le> s / 2 ^ 53"
    by simp
  have qs: "0 \<le> q * s" "q * s \<le> s"
    using q s0 by (simp_all add: mult_left_le_one_le)
  have "\<bar>p\<bar> = \<bar>(p - q * s) + q * s\<bar>"
    by simp
  also have "\<dots> \<le> \<bar>p - q * s\<bar> + \<bar>q * s\<bar>"
    by (rule abs_triangle_ineq)
  also have "\<dots> \<le> s / 2 ^ 53 + s"
    using a qs by (intro add_mono) simp_all
  also have "\<dots> \<le> 2 * s"
    using s0 by simp
  finally have b: "\<bar>p\<bar> \<le> 2 * s" .
  have "\<bar>p' - p\<bar> \<le> \<bar>p\<bar> / 2 ^ 53"
    unfolding p'_def by (rule round_binary64_error)
  also have "\<dots> \<le> 2 * s / 2 ^ 53"
    using b by (simp add: divide_right_mono)
  finally have c: "\<bar>p' - p\<bar> \<le> 2 * s / 2 ^ 53" .
  have d: "\<bar>rat_of_int (py_round p') - p'\<bar> \<le> 1 / 2"
    by (rule py_round_error)
  have alloc: "allocation steps w = py_round p'"
    by (simp add: allocation_def p'_def p_def q'_def q_def s_def)
  have "\<bar>rat_of_int (py_round p') - q * s\<bar> =
      \<bar>(rat_of_int (py_round p') - p') + ((p' - p) + (p - q * s))\<bar>"
    by simp
  also have "\<dots> \<le> \<bar>rat_of_int (py_round p') - p'\<bar> + \<bar>(p' - p) + (p - q * s)\<bar>"
    by (rule abs_triangle_ineq)
  also have "\<dots> \<le> 1 / 2 + (\<bar>p' - p\<bar> + \<bar>p - q * s\<bar>)"
    using d by (intro add_mono abs_triangle_ineq)
  also have "\<dots> \<le> 1 / 2 + (2 * s / 2 ^ 53 + s / 2 ^ 53)"
    using c a by (intro add_mono order_refl)
  also have "\<dots> \<le> 1"
    using s1 by simp
  finally have "\<bar>rat_of_int (py_round p') - q * s\<bar> \<le> 1" .
  then show ?thesis
    by (simp add: alloc q_def s_def)
qed

text \<open>
  The span of 70 with 45 steps: the exact product is the tie \<^verbatim>\<open>31.5\<close>, the machine's is
  \<^verbatim>\<open>31.499999999999996\<close>, and the allocation is 31; with the span of 30, allocated 14,
  the two segments of a single stop at 70 add up to the 45 steps.
\<close>

lemma allocation_below_tie: "allocation 45 70 = 31 \<and> allocation 45 30 = 14"
  by code_simp

lemma adv_gradient_single_stop:
  "adv_gradient [(\<lparr>red = 9, green = 9, blue = 9\<rparr>, 70)] 45 =
     Inr (replicate 31 \<lparr>red = 9, green = 9, blue = 9\<rparr> @
          replicate 14 \<lparr>red = 9, green = 9, blue = 9\<rparr>)"
proof -
  have cols: "sort_key snd [(\<lparr>red = 9::int, green = 9::int, blue = 9::int\<rparr>, 70::int)] =
      [(\<lparr>red = 9, green = 9, blue = 9\<rparr>, 70)]"
    by simp
  show ?thesis
    using adv_gradient_sorted_cols [OF cols, of 45] allocation_below_tie
    by (simp add: leading_run_def trailing_run_def)
qed

subsection \<open>The length of the result\<close>

lemma allocation_sum_error:
  assumes "\<forall>w \<in> set ws. 0 \<le> w \<and> w \<le> 100" and "0 \<le> steps" and "steps \<le> 2 ^ 50"
  shows "\<bar>rat_of_int (sum_list (map (allocation steps) ws)) -
     rat_of_int (sum_list ws) / 100 * rat_of_int steps\<bar> \<le> rat_of_nat (length ws)"
  using assms(1)
proof (induction ws)
  case Nil
  then show ?case
    by simp
next
  case (Cons w ws)
  let ?e1 = "rat_of_int (allocation steps w) - rat_of_int w / 100 * rat_of_int steps"
  let ?e2 = "rat_of_int (sum_list (map (allocation steps) ws)) -
      rat_of_int (sum_list ws) / 100 * rat_of_int steps"
  have one: "\<bar>?e1\<bar> \<le> 1"
    using Cons.prems assms(2,3) by (intro allocation_error) simp_all
  have rest: "\<bar>?e2\<bar> \<le> rat_of_nat (length ws)"
    using Cons.prems by (intro Cons.IH) simp
  have eq: "rat_of_int (sum_list (map (allocation steps) (w # ws))) -
      rat_of_int (sum_list (w # ws)) / 100 * rat_of_int steps = ?e1 + ?e2"
    by (simp add: algebra_simps add_divide_distrib)
  have "\<bar>?e1 + ?e2\<bar> \<le> \<bar>?e1\<bar> + \<bar>?e2\<bar>"
    by (rule abs_triangle_ineq)
  also have "\<dots> \<le> 1 + rat_of_nat (length ws)"
    using one rest by (rule add_mono)
  also have "\<dots> = rat_of_nat (length (w # ws))"
    by simp
  finally show ?case
    unfolding eq .
qed

lemma sum_list_nat:
  "\<forall>w \<in> set ws. 0 \<le> f w \<Longrightarrow>
   int (sum_list (map (\<lambda>w. nat (f w)) ws)) = sum_list (map f ws)"
  by (induction ws) simp_all

lemma allocation_total:
  assumes "sum_list ws = 100" and "\<forall>w \<in> set ws. 0 \<le> w \<and> w \<le> 100"
    and "0 \<le> steps" and "steps \<le> 2 ^ 50"
  shows "\<bar>sum_list (map (allocation steps) ws) - steps\<bar> \<le> int (length ws)"
proof -
  have "\<bar>rat_of_int (sum_list (map (allocation steps) ws)) - rat_of_int steps\<bar> \<le>
      rat_of_nat (length ws)"
    using allocation_sum_error [OF assms(2,3,4)] assms(1) by simp
  then have "rat_of_int \<bar>sum_list (map (allocation steps) ws) - steps\<bar> \<le>
      rat_of_int (int (length ws))"
    by simp
  then show ?thesis
    by (simp only: of_int_le_iff)
qed

lemma spans_bounds:
  "sorted ms \<Longrightarrow> \<forall>m \<in> set ms. 0 \<le> m \<and> m \<le> 100 \<Longrightarrow> w \<in> set (spans ms) \<Longrightarrow>
   0 \<le> w \<and> w \<le> 100"
  by (induction ms arbitrary: w rule: spans.induct) auto

lemma markers_bounds:
  "cols \<noteq> [] \<Longrightarrow> \<forall>c \<in> set cols. 0 \<le> snd c \<and> snd c \<le> 100 \<Longrightarrow>
   \<forall>m \<in> set (markers cols). 0 \<le> m \<and> m \<le> 100"
  by (auto simp: markers_def)

lemma sorted_markers:
  assumes "cols \<noteq> []" and "sorted (map snd cols)"
    and "\<forall>c \<in> set cols. 0 \<le> snd c \<and> snd c \<le> 100"
  shows "sorted (markers cols)"
  using assms by (auto simp: markers_def sorted_append)

lemma gradient_length: "gradient a b k = Inr g \<Longrightarrow> length g = nat k"
proof -
  assume ret: "gradient a b k = Inr g"
  then have "k \<noteq> 1"
    using gradient_one_step [of a b] by auto
  then have "gradient a b k = Inr (map (spec_sample a b k) (py_range k))"
    by (rule gradient_returns)
  with ret show ?thesis
    by (auto simp: length_py_range)
qed

lemma segments_length:
  "segments steps cols = Inr middle \<Longrightarrow>
   length middle = sum_list (map (\<lambda>w. nat (allocation steps w)) (spans (map snd cols)))"
proof (induction cols arbitrary: middle rule: induct_list012)
  case 1
  then show ?case by simp
next
  case (2 a)
  then show ?case by simp
next
  case (3 a b rest)
  from "3.prems" obtain g gs where
    g: "gradient (fst a) (fst b) (allocation steps (snd b - snd a)) = Inr g" and
    gs: "segments steps (b # rest) = Inr gs" and m: "middle = g @ gs"
    by (auto split: sum.splits)
  from gs have "length gs =
      sum_list (map (\<lambda>w. nat (allocation steps w)) (spans (map snd (b # rest))))"
    by (rule "3.IH"(2))
  then show ?case
    using m gradient_length [OF g] by simp
qed

lemma adv_gradient_length:
  assumes "sort_key snd stops = cols" and "cols \<noteq> []"
    and "adv_gradient stops steps = Inr xs"
  shows "length xs = sum_list (map (\<lambda>w. nat (allocation steps w)) (spans (markers cols)))"
proof -
  from assms obtain middle where
    mid: "segments steps cols = Inr middle" and
    xs: "xs = leading_run steps cols @ middle @ trailing_run steps cols"
    by (auto simp: adv_gradient_sorted_cols split: sum.splits)
  show ?thesis
    using assms(2) segments_length [OF mid]
    by (simp add: xs spans_markers leading_run_def trailing_run_def)
qed

text \<open>
  Wherever \<^verbatim>\<open>adv_gradient\<close> returns a list, for stops with percentages in \<open>[0, 100]\<close>
  and a positive step count of at most \<^verbatim>\<open>2^50\<close>, the length of the list is within the
  number of segments (the consecutive pairs of markers) of the step count.
\<close>

lemma adv_gradient_length_bound:
  assumes "stops \<noteq> []" and "\<forall>c \<in> set stops. 0 \<le> snd c \<and> snd c \<le> 100"
    and "0 < steps" and "steps \<le> 2 ^ 50"
    and "adv_gradient stops steps = Inr xs"
  shows "\<bar>int (length xs) - steps\<bar> \<le> int (length (markers (sort_key snd stops)) - 1)"
proof -
  let ?cols = "sort_key snd stops"
  let ?ws = "spans (markers ?cols)"
  have ne: "?cols \<noteq> []"
    using assms(1) by (metis length_sort list.size(3) length_0_conv)
  have inb: "\<forall>c \<in> set ?cols. 0 \<le> snd c \<and> snd c \<le> 100"
    using assms(2) by simp
  have srt: "sorted (markers ?cols)"
    using ne inb by (intro sorted_markers) simp_all
  have bounds: "\<forall>w \<in> set ?ws. 0 \<le> w \<and> w \<le> 100"
    using spans_bounds [OF srt markers_bounds [OF ne inb]] by blast
  then have nonneg: "\<forall>w \<in> set ?ws. 0 \<le> allocation steps w"
    using assms(3) by (auto intro!: allocation_nonneg)
  have "length xs = sum_list (map (\<lambda>w. nat (allocation steps w)) ?ws)"
    using ne assms(5) by (intro adv_gradient_length) simp_all
  also have "int \<dots> = sum_list (map (allocation steps) ?ws)"
    using nonneg by (rule sum_list_nat)
  finally have len: "int (length xs) = sum_list (map (allocation steps) ?ws)" .
  have "\<bar>sum_list (map (allocation steps) ?ws) - steps\<bar> \<le> int (length ?ws)"
    using ne bounds assms(3,4) by (intro allocation_total sum_spans_markers) simp_all
  then show ?thesis
    by (simp add: len length_spans)
qed

subsection \<open>Two stops at 0 and 100\<close>

lemma adv_gradient_two_stops:
  "adv_gradient [(a, 0), (b, 100)] steps = gradient a b steps"
proof -
  have cols: "sort_key snd [(a, 0::int), (b, 100)] = [(a, 0), (b, 100)]"
    by simp
  show ?thesis
    using adv_gradient_sorted_cols [OF cols, of steps]
    by (simp add: allocation_whole leading_run_def trailing_run_def split: sum.splits)
qed

text \<open>
  Claim C3. For every pair of colours \<open>a\<close>, \<open>b\<close> and every \<open>steps \<ge> 2\<close>, the advanced
  gradient of the two stops \<open>[(a, 0), (b, 100)]\<close> returns exactly the list that
  \<^verbatim>\<open>gradient(a, b, steps)\<close> returns.
\<close>

theorem adv_gradient_refines_gradient:
  assumes "2 \<le> steps"
  shows "adv_gradient [(a, 0), (b, 100)] steps = gradient a b steps \<and>
         (\<exists>xs. gradient a b steps = Inr xs \<and> length xs = nat steps)"
proof
  show "adv_gradient [(a, 0), (b, 100)] steps = gradient a b steps"
    by (rule adv_gradient_two_stops)
next
  from assms have "steps \<noteq> 1"
    by simp
  then have "gradient a b steps = Inr (map (spec_sample a b steps) (py_range steps))"
    by (rule gradient_returns)
  then show "\<exists>xs. gradient a b steps = Inr xs \<and> length xs = nat steps"
    by (simp add: length_py_range)
qed

theorem adv_gradient_refines_gradient_witness:
  "(2::int) \<le> 10 \<and>
   adv_gradient [(\<lparr>red = 255, green = 0, blue = 0\<rparr>, 0), (\<lparr>red = 0, green = 0, blue = 255\<rparr>, 100)] 10 =
     gradient \<lparr>red = 255, green = 0, blue = 0\<rparr> \<lparr>red = 0, green = 0, blue = 255\<rparr> 10 \<and>
   (\<exists>xs. gradient \<lparr>red = 255, green = 0, blue = 0\<rparr> \<lparr>red = 0, green = 0, blue = 255\<rparr> 10 = Inr xs \<and>
      length xs = 10)"
  using adv_gradient_refines_gradient
    [of 10 "\<lparr>red = 255, green = 0, blue = 0\<rparr>" "\<lparr>red = 0, green = 0, blue = 255\<rparr>"]
  by simp

text \<open>The example of the claim: red to blue in ten samples.\<close>

lemma gradient_red_blue:
  "gradient \<lparr>red = 255, green = 0, blue = 0\<rparr> \<lparr>red = 0, green = 0, blue = 255\<rparr> 10 =
     Inr [\<lparr>red = 255, green = 0, blue = 0\<rparr>, \<lparr>red = 226, green = 0, blue = 28\<rparr>,
          \<lparr>red = 198, green = 0, blue = 56\<rparr>, \<lparr>red = 170, green = 0, blue = 85\<rparr>,
          \<lparr>red = 141, green = 0, blue = 113\<rparr>, \<lparr>red = 113, green = 0, blue = 141\<rparr>,
          \<lparr>red = 85, green = 0, blue = 170\<rparr>, \<lparr>red = 56, green = 0, blue = 198\<rparr>,
          \<lparr>red = 28, green = 0, blue = 226\<rparr>, \<lparr>red = 0, green = 0, blue = 255\<rparr>]"
  by code_simp

subsection \<open>A middle segment of one step\<close>

text \<open>
  Claim C4 promises a list whose length is close to the step count for every non-empty
  list of stops and every positive step count. Where a middle segment is allocated
  exactly one step, \<^verbatim>\<open>gradient\<close> divides by zero and \<^verbatim>\<open>adv_gradient\<close> returns no
  list: three stops at 0, 10 and 100 with ten steps, or two stops at 0 and 100 with one
  step.
\<close>

theorem adv_gradient_one_step_segment:
  "adv_gradient [(\<lparr>red = 255, green = 0, blue = 0\<rparr>, 0), (\<lparr>red = 0, green = 255, blue = 0\<rparr>, 10),
     (\<lparr>red = 0, green = 0, blue = 255\<rparr>, 100)] 10 = Inl ZeroDivisionError \<and>
   adv_gradient [(\<lparr>red = 255, green = 0, blue = 0\<rparr>, 0), (\<lparr>red = 0, green = 0, blue = 255\<rparr>, 100)] 1 =
     Inl ZeroDivisionError"
  by code_simp

text \<open>
  Claim C5 promises, for every sorted list of stops whose lowest stop is not at 0 or
  whose highest is not at 100, a result that begins or ends with a constant run. For
  the sorted stops at 10, 20 and 70 with ten steps the spans 10, 10, 50 and 30 are
  allocated 1, 1, 5 and 3 steps; the leading run is built, the first middle segment has
  one step, and \<^verbatim>\<open>adv_gradient\<close> raises instead of returning the runs.
\<close>

lemma steps_per_example:
  "steps_per_loop [10, 10, 50, 30] 10 [10, 10, 50, 30] [] = Inr [1, 1, 5, 3]"
  by code_simp

theorem adv_gradient_runs_not_returned:
  "adv_gradient [(\<lparr>red = 255, green = 0, blue = 0\<rparr>, 10), (\<lparr>red = 0, green = 255, blue = 0\<rparr>, 20),
     (\<lparr>red = 0, green = 0, blue = 255\<rparr>, 70)] 10 = Inl ZeroDivisionError"
  by code_simp

end
